theory Spec2Isabelle
  imports Complex_Main
begin

section \<open>BAC0: the task manager and the liveness sweep\<close>

text \<open>
  A shallow embedding of \<^verbatim>\<open>BAC0/tasks/TaskManager.py\<close> (the class \<^verbatim>\<open>Task\<close>, its
  subclass \<^verbatim>\<open>OneShotTask\<close> and \<^verbatim>\<open>stopAllTasks\<close>) and of
  \<^verbatim>\<open>Lite.ping_registered_devices\<close> in \<^verbatim>\<open>BAC0/scripts/Lite.py\<close>.

  Python numbers (delays, timestamps, averages) are real numbers here; exceptions are
  values of \<open>py_error\<close>; what the code reads from its surroundings (the clock, the random
  jitter, the address of a new object, what a callable or a device does when called) is a
  parameter of the function that reads it.
\<close>

subsection \<open>Exceptions\<close>

datatype py_error =
    NotImplementedError
  | AttributeError
  | ValueError
  | TypeError
  | CancelledError
  | NumerousPingFailures
  | NoResponseFromController
  | Timeout
  | UnrecognizedService
  | OtherError string

subsection \<open>Printing integers\<close>

text \<open>Python's \<^verbatim>\<open>str\<close> of an integer, as used by the f-string and \<^verbatim>\<open>format\<close> calls.\<close>

definition digit_char :: "nat \<Rightarrow> char" where
  "digit_char n = char_of (48 + n)"

fun str_nat :: "nat \<Rightarrow> string" where
  "str_nat n = (if n < 10 then [digit_char n] else str_nat (n div 10) @ [digit_char (n mod 10)])"

declare str_nat.simps [simp del]

definition str_int :: "int \<Rightarrow> string" where
  "str_int i = (if i < 0 then CHR ''-'' # str_nat (nat (- i)) else str_nat (nat i))"

subsection \<open>The class Task\<close>

text \<open>
  A callable and an argument object are opaque: only their identity matters. A callable
  object is truthy, so \<^verbatim>\<open>if self.fn\<close> tests \<open>fn\<close> against \<open>None\<close>.
\<close>

datatype callable = Callable nat

datatype pyobj = Obj nat

type_synonym kwargs = "(string \<times> pyobj) list"

text \<open>
  The class of a Task object decides which \<^verbatim>\<open>task\<close> method it has: \<open>TaskC\<close> and
  \<open>OneShotTaskC\<close> have the one of \<^verbatim>\<open>Task\<close>; \<open>SubclassC\<close> stands for a subclass (of either)
  that overrides it.
\<close>

datatype task_class = TaskC | OneShotTaskC | SubclassC

text \<open>
  The fields of a Task, as \<^verbatim>\<open>__init__\<close> sets them. \<open>id_task\<close> is \<^verbatim>\<open>self.id\<close>,
  \<open>u_kwargs\<close> is \<^verbatim>\<open>self._kwargs\<close>, \<open>u_task\<close> is \<^verbatim>\<open>self._task\<close>. \<open>u_task\<close> and \<open>aio_task\<close>
  hold the handle of an asyncio task, or \<open>None\<close>.
\<close>

record Task =
  cls :: task_class
  id_task :: nat
  name :: string
  fn :: "callable option"
  args :: "pyobj option"
  delay :: real
  previous_execution :: "real option"
  average_execution_delay :: real
  average_latency :: real
  next_execution :: real
  execution_time :: real
  count :: nat
  u_kwargs :: "kwargs option"
  u_task :: "nat option"
  aio_task :: "nat option"

text \<open>
  The argument \<^verbatim>\<open>fn\<close> of the constructor: \<^verbatim>\<open>None\<close> or a callable (\<open>NotTuple\<close>), a tuple of
  two objects (\<open>Tuple2\<close>), or a tuple of another length (\<open>TupleOther\<close>), whose unpacking
  \<^verbatim>\<open>self.fn, self.args = fn\<close> raises \<^verbatim>\<open>ValueError\<close>.
\<close>

datatype fn_param =
    NotTuple "callable option"
  | Tuple2 "callable option" "pyobj option"
  | TupleOther

fun unpack_fn :: "fn_param \<Rightarrow> py_error + (callable option \<times> pyobj option)" where
  "unpack_fn (Tuple2 f a) = Inr (f, a)"
| "unpack_fn TupleOther = Inl ValueError"
| "unpack_fn (NotTuple f) = Inr (f, None)"

text \<open>
  \<^verbatim>\<open>Task.__init__(self, fn, name, delay)\<close>. \<open>c\<close> is the class of \<^verbatim>\<open>self\<close>, \<open>self_id\<close> is
  \<^verbatim>\<open>id(self)\<close>, \<open>now\<close> is \<^verbatim>\<open>time.time()\<close> and \<open>rnd\<close> is \<^verbatim>\<open>random()\<close>.
\<close>

definition Task_init ::
  "task_class \<Rightarrow> fn_param \<Rightarrow> string option \<Rightarrow> real \<Rightarrow> nat \<Rightarrow> real \<Rightarrow> real \<Rightarrow> py_error + Task" where
  "Task_init c fn_p nm d self_id now rnd =
     (case unpack_fn fn_p of
        Inl e \<Rightarrow> Inl e
      | Inr (f, a) \<Rightarrow>
          Inr \<lparr> cls = c,
                id_task = self_id,
                name = (case nm of Some n \<Rightarrow> n | None \<Rightarrow> ''Task_'' @ str_nat self_id),
                fn = f,
                args = a,
                delay = (if d > 0 then (if d \<ge> 5 then d else 5) else 0),
                previous_execution = None,
                average_execution_delay = 0,
                average_latency = 0,
                next_execution = now + d + rnd * 10,
                execution_time = 0,
                count = 0,
                u_kwargs = None,
                u_task = None,
                aio_task = None \<rparr>)"

text \<open>
  \<^verbatim>\<open>OneShotTask.__init__(self, fn, args, name)\<close> passes only \<^verbatim>\<open>name\<close> and
  \<^verbatim>\<open>delay=0\<close> to \<^verbatim>\<open>Task.__init__\<close>.
\<close>

definition OneShotTask_init ::
  "task_class \<Rightarrow> fn_param \<Rightarrow> pyobj option \<Rightarrow> string option \<Rightarrow> nat \<Rightarrow> real \<Rightarrow> real \<Rightarrow> py_error + Task" where
  "OneShotTask_init c fn_p args_p nm self_id now rnd = Task_init c (NotTuple None) nm 0 self_id now rnd"

text \<open>\<^verbatim>\<open>Task.__lt__\<close>.\<close>

definition Task_lt :: "Task \<Rightarrow> Task \<Rightarrow> bool" where
  "Task_lt self other = (next_execution self > next_execution other)"

subsection \<open>Running the payload\<close>

text \<open>
  The three ways \<^verbatim>\<open>execute\<close> calls the payload. What an awaited callable, or an overriding
  \<^verbatim>\<open>task\<close> method, does is not in this file: its outcome is given by an environment, \<open>None\<close>
  when the call returns and \<open>Some e\<close> when it raises \<open>e\<close>. A payload is taken to leave the
  fields of the Task alone.
\<close>

datatype call =
    FnArgs callable pyobj
  | Fn callable
  | TaskMethod "kwargs option"

type_synonym env = "call \<Rightarrow> py_error option"

text \<open>
  The method \<^verbatim>\<open>task\<close>. The one of \<^verbatim>\<open>Task\<close> takes no keyword and raises
  \<^verbatim>\<open>NotImplementedError\<close>; called with a keyword it cannot bind, Python raises \<^verbatim>\<open>TypeError\<close>.
\<close>

fun task :: "env \<Rightarrow> task_class \<Rightarrow> kwargs option \<Rightarrow> py_error option" where
  "task e SubclassC kw = e (TaskMethod kw)"
| "task e c None = Some NotImplementedError"
| "task e c (Some []) = Some NotImplementedError"
| "task e c (Some (k # ks)) = Some TypeError"

definition payload :: "env \<Rightarrow> Task \<Rightarrow> py_error option \<times> call" where
  "payload e self =
     (case fn self of
        Some f \<Rightarrow>
          (case args self of
             Some a \<Rightarrow> (e (FnArgs f a), FnArgs f a)
           | None \<Rightarrow> (e (Fn f), Fn f))
      | None \<Rightarrow> (task e (cls self) (u_kwargs self), TaskMethod (u_kwargs self)))"

text \<open>
  \<^verbatim>\<open>if self.previous_execution:\<close> is false for \<^verbatim>\<open>None\<close> and for the number zero.
\<close>

definition truthy :: "real option \<Rightarrow> bool" where
  "truthy x = (case x of None \<Rightarrow> False | Some v \<Rightarrow> v \<noteq> 0)"

text \<open>
  One pass through the body of \<^verbatim>\<open>while True\<close>, up to \<^verbatim>\<open>asyncio.sleep\<close>. The body reads
  the clock three times: \<open>start_time\<close>, then \<open>now1\<close> for \<^verbatim>\<open>execution_time\<close> and \<open>now2\<close> for
  \<^verbatim>\<open>next_execution\<close>. An exception of the payload leaves the body where it was raised.
\<close>

definition iteration :: "env \<Rightarrow> real \<times> real \<times> real \<Rightarrow> Task \<Rightarrow> py_error option \<times> Task \<times> call" where
  "iteration e clk self =
     (case clk of (start_time, now1, now2) \<Rightarrow>
        let s1 = self\<lparr>count := count self + 1\<rparr>;
            s2 = s1\<lparr>average_latency := (average_latency s1 + (start_time - next_execution s1)) / 2\<rparr>
        in case payload e s2 of
             (Some err, c) \<Rightarrow> (Some err, s2, c)
           | (None, c) \<Rightarrow>
               let s3 = s2\<lparr>average_execution_delay :=
                          (if truthy (previous_execution s2)
                           then (average_execution_delay s2 + (start_time - the (previous_execution s2))) / 2
                           else delay s2)\<rparr>;
                   s4 = s3\<lparr>execution_time := now1 - start_time\<rparr>;
                   s5 = s4\<lparr>previous_execution := Some start_time\<rparr>;
                   s6 = s5\<lparr>next_execution := now2 + delay s5\<rparr>
               in (None, s6, c))"

text \<open>
  \<^verbatim>\<open>Task.execute\<close>. The recurring loop never ends by itself, so it runs on a list of clock
  readings, one per pass the event loop lets it make: when the list is used up the
  coroutine is \<open>Suspended\<close> in \<^verbatim>\<open>asyncio.sleep(self.delay)\<close>. The result is how the coroutine
  stands, the Task, and the payload calls made, in order.
\<close>

datatype outcome = Returned | Raised py_error | Suspended

fun execute_loop :: "env \<Rightarrow> (real \<times> real \<times> real) list \<Rightarrow> Task \<Rightarrow> outcome \<times> Task \<times> call list" where
  "execute_loop e [] self = (Suspended, self, [])"
| "execute_loop e (clk # clks) self =
     (case iteration e clk self of
        (Some err, s, c) \<Rightarrow> (Raised err, s, [c])
      | (None, s, c) \<Rightarrow>
          (case execute_loop e clks s of (out, s', cs) \<Rightarrow> (out, s', c # cs)))"

definition execute :: "env \<Rightarrow> (real \<times> real \<times> real) list \<Rightarrow> Task \<Rightarrow> outcome \<times> Task \<times> call list" where
  "execute e clks self =
     (if delay self > 0 then execute_loop e clks self
      else (case payload e self of
              (Some err, c) \<Rightarrow> (Raised err, self, [c])
            | (None, c) \<Rightarrow> (Returned, self, [c])))"

subsection \<open>The registry and the event loop\<close>

text \<open>
  Task objects are shared and mutated in place, so they live in a heap, addressed by
  reference; the reference of an object is its \<^verbatim>\<open>id()\<close>. \<open>tasks\<close> is the class attribute
  \<^verbatim>\<open>Task.tasks\<close>, a list of references.

  An asyncio task is known by a handle, the number of \<^verbatim>\<open>asyncio.create_task\<close> calls made
  before it. \<open>coro\<close> is the Task whose \<^verbatim>\<open>execute()\<close> it runs, \<open>entered\<close> says that the
  coroutine has begun, \<open>cancel_requested\<close> that \<^verbatim>\<open>cancel()\<close> was called on it, \<open>finished\<close>
  that the coroutine has returned or raised.
\<close>

record aio =
  coro :: nat
  entered :: bool
  cancel_requested :: bool
  finished :: bool

record world =
  heap :: "nat \<Rightarrow> Task"
  tasks :: "nat list"
  aio_tasks :: "nat \<Rightarrow> aio"
  n_aio :: nat

definition clean_tasklist :: "world \<Rightarrow> world" where
  "clean_tasklist w = w\<lparr>tasks := []\<rparr>"

definition number_of_tasks :: "world \<Rightarrow> nat" where
  "number_of_tasks w = length (tasks w)"

definition create_task :: "nat \<Rightarrow> world \<Rightarrow> nat \<times> world" where
  "create_task r w =
     (n_aio w,
      w\<lparr>aio_tasks := (aio_tasks w)
            (n_aio w := \<lparr>coro = r, entered = False, cancel_requested = False, finished = False\<rparr>),
        n_aio := n_aio w + 1\<rparr>)"

definition cancel :: "nat \<Rightarrow> world \<Rightarrow> world" where
  "cancel h w = w\<lparr>aio_tasks := (aio_tasks w)(h := (aio_tasks w h)\<lparr>cancel_requested := True\<rparr>)\<rparr>"

text \<open>\<^verbatim>\<open>Task.start\<close>.\<close>

definition start :: "nat \<Rightarrow> world \<Rightarrow> world" where
  "start self w =
     (case create_task self w of
        (h, w1) \<Rightarrow>
          w1\<lparr>heap := (heap w1)(self := (heap w1 self)\<lparr>aio_task := Some h\<rparr>),
             tasks := tasks w1 @ [self]\<rparr>)"

text \<open>
  \<^verbatim>\<open>Task.stop\<close>: \<^verbatim>\<open>self._task.cancel()\<close>. On \<^verbatim>\<open>None\<close> the attribute lookup raises
  \<^verbatim>\<open>AttributeError\<close>.
\<close>

definition stop :: "nat \<Rightarrow> world \<Rightarrow> py_error option \<times> world" where
  "stop self w =
     (case u_task (heap w self) of
        None \<Rightarrow> (Some AttributeError, w)
      | Some h \<Rightarrow> (None, cancel h w))"

text \<open>\<^verbatim>\<open>stopAllTasks\<close>: the loop over \<^verbatim>\<open>Task.tasks\<close>, then \<^verbatim>\<open>clean_tasklist\<close>.\<close>

fun cancel_each :: "nat list \<Rightarrow> world \<Rightarrow> py_error option \<times> world" where
  "cancel_each [] w = (None, w)"
| "cancel_each (each # rest) w =
     (case aio_task (heap w each) of
        None \<Rightarrow> (Some AttributeError, w)
      | Some h \<Rightarrow> cancel_each rest (cancel h w))"

definition stopAllTasks :: "world \<Rightarrow> (py_error + bool) \<times> world" where
  "stopAllTasks w =
     (case cancel_each (tasks w) w of
        (Some err, w1) \<Rightarrow> (Inl err, w1)
      | (None, w1) \<Rightarrow> (Inr True, clean_tasklist w1))"

text \<open>
  The event loop resumes the asyncio task \<open>h\<close>. A task that is finished stays so. A task
  whose cancellation was requested gets \<^verbatim>\<open>CancelledError\<close> where it is suspended (or before
  it begins); \<^verbatim>\<open>execute\<close> has no handler, so it ends there without running the payload.
  Otherwise the coroutine runs to its next \<^verbatim>\<open>asyncio.sleep\<close> or to its end: from the top of
  \<^verbatim>\<open>execute\<close> the first time, inside the loop afterwards. The result lists the payload
  calls of this step, each with the handle that made it.
\<close>

definition resume :: "env \<Rightarrow> real \<times> real \<times> real \<Rightarrow> nat \<Rightarrow> world \<Rightarrow> world \<times> (nat \<times> call) list" where
  "resume e clk h w =
     (let a = aio_tasks w h in
      if h < n_aio w \<and> \<not> finished a then
        if cancel_requested a then
          (w\<lparr>aio_tasks := (aio_tasks w)(h := a\<lparr>finished := True\<rparr>)\<rparr>, [])
        else
          (case (if entered a then execute_loop e [clk] (heap w (coro a))
                 else execute e [clk] (heap w (coro a))) of
             (out, s, cs) \<Rightarrow>
               (w\<lparr>heap := (heap w)(coro a := s),
                  aio_tasks := (aio_tasks w)(h := a\<lparr>entered := True, finished := (out \<noteq> Suspended)\<rparr>)\<rparr>,
                map (Pair h) cs))
      else (w, []))"

fun run :: "(env \<times> (real \<times> real \<times> real) \<times> nat) list \<Rightarrow> world \<Rightarrow> world \<times> (nat \<times> call) list" where
  "run [] w = (w, [])"
| "run ((e, clk, h) # sched) w =
     (case resume e clk h w of
        (w1, cs) \<Rightarrow> (case run sched w1 of (w2, cs') \<Rightarrow> (w2, cs @ cs')))"

text \<open>
  Sequences of \<^verbatim>\<open>start()\<close>, \<^verbatim>\<open>stop()\<close> and \<^verbatim>\<open>stopAllTasks()\<close> calls. A call that raises
  leaves the world as it was when the exception left it.
\<close>

datatype op = Start nat | Stop nat | StopAll

fun apply_op :: "op \<Rightarrow> world \<Rightarrow> world" where
  "apply_op (Start r) w = start r w"
| "apply_op (Stop r) w = snd (stop r w)"
| "apply_op StopAll w = snd (stopAllTasks w)"

fun apply_ops :: "op list \<Rightarrow> world \<Rightarrow> world" where
  "apply_ops [] w = w"
| "apply_ops (x # xs) w = apply_ops xs (apply_op x w)"

text \<open>The ids of the entries of the registry, in order.\<close>

definition registry_ids :: "world \<Rightarrow> nat list" where
  "registry_ids w = map (\<lambda>r. id_task (heap w r)) (tasks w)"

text \<open>No operation of the sequence starts a Task that is in the registry at that moment.\<close>

fun starts_fresh :: "op list \<Rightarrow> world \<Rightarrow> bool" where
  "starts_fresh [] w = True"
| "starts_fresh (Start r # xs) w = (r \<notin> set (tasks w) \<and> starts_fresh xs (apply_op (Start r) w))"
| "starts_fresh (x # xs) w = starts_fresh xs (apply_op x w)"

subsection \<open>The liveness sweep of Lite\<close>

text \<open>
  A device object has a class, which decides the \<^verbatim>\<open>isinstance\<close> test, and the properties
  the sweep reads. \<open>name_prop\<close> is \<^verbatim>\<open>properties.name\<close>.
\<close>

datatype device_class = RPDeviceConnected | RPMDeviceConnected | OtherDevice

record properties =
  name_prop :: string
  address :: string
  device_id :: int
  ping_failures :: int
  pollDelay :: real

record device =
  kind :: device_class
  properties :: properties

text \<open>
  What the sweep calls and does not define: the methods \<^verbatim>\<open>ping\<close>, \<^verbatim>\<open>disconnect\<close>,
  \<^verbatim>\<open>connect\<close> and \<^verbatim>\<open>poll\<close> of a device, and \<^verbatim>\<open>self.read\<close>. A method is given the identity
  and the state of the device it is called on and answers with the exception it raises, if
  any, and the state it leaves the device in.

  \<^verbatim>\<open>self.read\<close> is a coroutine function: the property \<^verbatim>\<open>devices\<close> of the same class gets
  its value with \<^verbatim>\<open>await self.read(...)\<close>. \<open>read\<close> is what awaiting the call gives, an
  exception or a value. The call alone gives a coroutine object, which is no string and
  raises nothing.
\<close>

datatype pyval = Str string | Coroutine string

record net =
  ping :: "nat \<Rightarrow> device \<Rightarrow> py_error option \<times> device"
  disconnect :: "nat \<Rightarrow> device \<Rightarrow> bool \<Rightarrow> py_error option \<times> device"
  read :: "string \<Rightarrow> py_error + string"
  connect :: "nat \<Rightarrow> device \<Rightarrow> py_error option \<times> device"
  poll :: "nat \<Rightarrow> device \<Rightarrow> real \<Rightarrow> py_error option \<times> device"

text \<open>What the sweep does that can be seen from outside: log lines and calls.\<close>

datatype event =
    Debug string
  | Warning string
  | Info string
  | Ping
  | Disconnect bool
  | Read string
  | Connect
  | Poll real

text \<open>The handler \<^verbatim>\<open>except NumerousPingFailures\<close>.\<close>

definition except_NumerousPingFailures ::
  "net \<Rightarrow> nat \<Rightarrow> device \<Rightarrow> event list \<Rightarrow> py_error option \<times> device \<times> event list" where
  "except_NumerousPingFailures n oid each ev =
     (case disconnect n oid each False of
        (r, d) \<Rightarrow>
          (r, d,
           ev @ [Warning (name_prop (properties each) @ ''|'' @ address (properties each)
                          @ '' is offline, disconnecting it.''),
                 Disconnect False]))"

text \<open>
  The body of the \<^verbatim>\<open>for\<close> loop, for one device \<open>each\<close> of identity \<open>oid\<close>.
  \<^verbatim>\<open>ping_registered_devices\<close> is a plain function and calls \<^verbatim>\<open>self.read\<close> without
  \<^verbatim>\<open>await\<close>: \<open>name\<close> is the coroutine object of that call, and the event \<open>Read q\<close> is the
  call, not a read on the network.
\<close>

definition check :: "net \<Rightarrow> nat \<Rightarrow> device \<Rightarrow> py_error option \<times> device \<times> event list" where
  "check n oid each =
     (if kind each = RPDeviceConnected \<or> kind each = RPMDeviceConnected then
        (let ev = [Debug (''Ping '' @ name_prop (properties each) @ ''|'' @ address (properties each)),
                   Ping]
         in case ping n oid each of
              (Some err, d1) \<Rightarrow>
                if err = NumerousPingFailures then except_NumerousPingFailures n oid d1 ev
                else (Some err, d1, ev)
            | (None, d1) \<Rightarrow>
                if ping_failures (properties d1) > 3 then except_NumerousPingFailures n oid d1 ev
                else (None, d1, ev))
      else
        (let q = address (properties each) @ '' device '' @ str_int (device_id (properties each))
                 @ '' objectName'';
             name = Coroutine q
         in if name = Str (name_prop (properties each)) then
              (let d1 = each\<lparr>properties := (properties each)\<lparr>ping_failures := 0\<rparr>\<rparr>;
                   ev = [Read q,
                         Info (name_prop (properties d1) @ ''|'' @ address (properties d1)
                               @ '' is back online, reconnecting.''),
                         Connect]
               in case connect n oid d1 of
                    (Some err, d2) \<Rightarrow> (Some err, d2, ev)
                  | (None, d2) \<Rightarrow>
                      (case poll n oid d2 (pollDelay (properties d2)) of
                         (r, d3) \<Rightarrow> (r, d3, ev @ [Poll (pollDelay (properties d2))])))
            else (None, each, [Read q])))"

text \<open>
  \<^verbatim>\<open>self._registered_devices\<close> maps the identity of a device to the device, in the order
  of registration; \<^verbatim>\<open>registered_devices\<close> lists the devices, here each with its identity.
\<close>

record lite =
  u_registered_devices :: "(nat \<times> device) list"

definition register_device :: "nat \<Rightarrow> device \<Rightarrow> lite \<Rightarrow> lite" where
  "register_device oid d l =
     l\<lparr>u_registered_devices :=
          (if oid \<in> fst ` set (u_registered_devices l)
           then map (\<lambda>(k, v). if k = oid then (k, d) else (k, v)) (u_registered_devices l)
           else u_registered_devices l @ [(oid, d)])\<rparr>"

definition unregister_device :: "nat \<Rightarrow> lite \<Rightarrow> lite" where
  "unregister_device oid l =
     l\<lparr>u_registered_devices := filter (\<lambda>(k, v). k \<noteq> oid) (u_registered_devices l)\<rparr>"

definition registered_devices :: "lite \<Rightarrow> (nat \<times> device) list" where
  "registered_devices l = u_registered_devices l"

text \<open>
  The \<^verbatim>\<open>for\<close> loop. An exception that leaves the body leaves the loop. The result is the
  exception, if any, the devices as the loop left them, and for each device whose check
  began, in order, its identity and the events of its check.
\<close>

fun sweep :: "net \<Rightarrow> (nat \<times> device) list \<Rightarrow> py_error option \<times> (nat \<times> device) list \<times> (nat \<times> event list) list" where
  "sweep n [] = (None, [], [])"
| "sweep n ((oid, each) # rest) =
     (case check n oid each of
        (Some err, d, ev) \<Rightarrow> (Some err, (oid, d) # rest, [(oid, ev)])
      | (None, d, ev) \<Rightarrow>
          (case sweep n rest of
             (r, rest', tr) \<Rightarrow> (r, (oid, d) # rest', (oid, ev) # tr)))"

definition ping_registered_devices ::
  "net \<Rightarrow> lite \<Rightarrow> py_error option \<times> lite \<times> (nat \<times> event list) list" where
  "ping_registered_devices n l =
     (case sweep n (registered_devices l) of
        (r, ds, tr) \<Rightarrow> (r, l\<lparr>u_registered_devices := ds\<rparr>, tr))"

text \<open>The events of the checks of the device \<open>oid\<close>.\<close>

definition events_of :: "nat \<Rightarrow> (nat \<times> event list) list \<Rightarrow> event list" where
  "events_of oid tr = concat (map snd (filter (\<lambda>(k, ev). k = oid) tr))"

subsection \<open>Concrete inputs\<close>

text \<open>
  Tasks as the constructor makes them, with a callable and no argument: the Task at
  reference \<open>r\<close> is constructed with the requested delay \<open>d\<close> at time 1000.
\<close>

definition ex_heap :: "real \<Rightarrow> nat \<Rightarrow> Task" where
  "ex_heap d r = projr (Task_init TaskC (NotTuple (Some (Callable r))) None d r 1000 0)"

definition ex_world :: "real \<Rightarrow> world" where
  "ex_world d =
     \<lparr>heap = ex_heap d,
      tasks = [],
      aio_tasks = (\<lambda>h. \<lparr>coro = 0, entered = False, cancel_requested = False, finished = False\<rparr>),
      n_aio = 0\<rparr>"

definition ex_env :: env where
  "ex_env = (\<lambda>c. None)"

text \<open>An environment in which every call raises.\<close>

definition ex_env_raising :: env where
  "ex_env_raising = (\<lambda>c. Some Timeout)"

text \<open>A one-shot Task with a callable and an argument, and one with neither.\<close>

definition ex_task_args :: Task where
  "ex_task_args = projr (Task_init TaskC (Tuple2 (Some (Callable 7)) (Some (Obj 8))) None 0 3 1000 0)"

definition ex_task_bare :: Task where
  "ex_task_bare = projr (Task_init TaskC (NotTuple None) None 0 4 1000 0)"

text \<open>
  A network on which every call returns: a ping counts one more failure, a disconnect and a
  connect change the class of the device, an awaited read answers \<^verbatim>\<open>'dev'\<close>.
\<close>

definition ex_device :: "device_class \<Rightarrow> string \<Rightarrow> int \<Rightarrow> device" where
  "ex_device k nm pf =
     \<lparr>kind = k,
      properties = \<lparr>name_prop = nm, address = ''2:5'', device_id = 5, ping_failures = pf, pollDelay = 10\<rparr>\<rparr>"

definition ex_net :: net where
  "ex_net =
     \<lparr>ping = (\<lambda>oid d. (None, d\<lparr>properties := (properties d)\<lparr>ping_failures := ping_failures (properties d) + 1\<rparr>\<rparr>)),
      disconnect = (\<lambda>oid d u. (None, d\<lparr>kind := OtherDevice\<rparr>)),
      read = (\<lambda>q. Inr ''dev''),
      connect = (\<lambda>oid d. (None, d\<lparr>kind := RPMDeviceConnected\<rparr>)),
      poll = (\<lambda>oid d dl. (None, d))\<rparr>"

text \<open>
  A network on which no device answers: a ping counts one more failure and raises
  \<^verbatim>\<open>NoResponseFromController\<close>.
\<close>

definition ex_net_silent :: net where
  "ex_net_silent =
     ex_net\<lparr>ping := (\<lambda>oid d.
        (Some NoResponseFromController,
         d\<lparr>properties := (properties d)\<lparr>ping_failures := ping_failures (properties d) + 1\<rparr>\<rparr>))\<rparr>"

text \<open>A network on which a ping raises \<^verbatim>\<open>NumerousPingFailures\<close> itself.\<close>

definition ex_net_numerous :: net where
  "ex_net_numerous = ex_net\<lparr>ping := (\<lambda>oid d. (Some NumerousPingFailures, d))\<rparr>"

text \<open>
  Three registered devices: a disconnected one of another name, a connected one with three
  ping failures so far, a disconnected one called \<^verbatim>\<open>'dev'\<close>.
\<close>

definition ex_lite :: lite where
  "ex_lite =
     \<lparr>u_registered_devices =
        [(0, ex_device OtherDevice ''x'' 0),
         (1, ex_device RPMDeviceConnected ''dev'' 3),
         (2, ex_device OtherDevice ''dev'' 4)]\<rparr>"

section \<open>Properties\<close>

subsection \<open>Construction and ordering of Tasks\<close>

lemma Task_init_NotTuple:
  "Task_init c (NotTuple f) nm d r now rnd =
     Inr \<lparr> cls = c, id_task = r,
           name = (case nm of Some n \<Rightarrow> n | None \<Rightarrow> ''Task_'' @ str_nat r),
           fn = f, args = None,
           delay = (if d > 0 then (if d \<ge> 5 then d else 5) else 0),
           previous_execution = None, average_execution_delay = 0, average_latency = 0,
           next_execution = now + d + rnd * 10, execution_time = 0, count = 0,
           u_kwargs = None, u_task = None, aio_task = None \<rparr>"
  by (simp add: Task_init_def)

lemma ex_heap_simp:
  "ex_heap d r =
     \<lparr> cls = TaskC, id_task = r, name = ''Task_'' @ str_nat r,
       fn = Some (Callable r), args = None,
       delay = (if d > 0 then (if d \<ge> 5 then d else 5) else 0),
       previous_execution = None, average_execution_delay = 0, average_latency = 0,
       next_execution = 1000 + d, execution_time = 0, count = 0,
       u_kwargs = None, u_task = None, aio_task = None \<rparr>"
  by (simp add: ex_heap_def Task_init_NotTuple)

text \<open>
  C7. For every Task that the constructor builds from a requested delay \<open>d\<close>: if
  \<open>0 < d < 5\<close> the delay of the Task is 5, if \<open>d \<ge> 5\<close> it is \<open>d\<close>, and if \<open>d = 0\<close> it is 0,
  the delay of a one-shot.
\<close>

theorem Task_init_delay_clamped:
  assumes "Task_init c fn_p nm d self_id now rnd = Inr t"
  shows "(0 < d \<and> d < 5 \<longrightarrow> delay t = 5) \<and> (5 \<le> d \<longrightarrow> delay t = d) \<and> (d = 0 \<longrightarrow> delay t = 0)"
  using assms by (auto simp: Task_init_def split: sum.splits prod.splits)

theorem Task_init_delay_clamped_witness:
  "Task_init TaskC (NotTuple (Some (Callable 1))) None 3 1 1000 0 = Inr (ex_heap 3 1)
   \<and> Task_init TaskC (NotTuple (Some (Callable 1))) None 7 1 1000 0 = Inr (ex_heap 7 1)
   \<and> Task_init TaskC (NotTuple (Some (Callable 1))) None 0 1 1000 0 = Inr (ex_heap 0 1)
   \<and> delay (ex_heap 3 1) = 5 \<and> delay (ex_heap 7 1) = 7 \<and> delay (ex_heap 0 1) = 0"
proof -
  have a: "Task_init TaskC (NotTuple (Some (Callable 1))) None 3 1 1000 0 = Inr (ex_heap 3 1)"
    by (simp add: ex_heap_def Task_init_def)
  have b: "Task_init TaskC (NotTuple (Some (Callable 1))) None 7 1 1000 0 = Inr (ex_heap 7 1)"
    by (simp add: ex_heap_def Task_init_def)
  have c: "Task_init TaskC (NotTuple (Some (Callable 1))) None 0 1 1000 0 = Inr (ex_heap 0 1)"
    by (simp add: ex_heap_def Task_init_def)
  show ?thesis
    using a b c
      Task_init_delay_clamped [OF a] Task_init_delay_clamped [OF b] Task_init_delay_clamped [OF c]
    by simp
qed

text \<open>
  C9. For Tasks \<open>a\<close> and \<open>b\<close> with \<open>next_execution a < next_execution b\<close>, the comparison
  \<^verbatim>\<open>a < b\<close> is false and \<^verbatim>\<open>b < a\<close> is true: \<^verbatim>\<open>__lt__\<close> is the reverse of the ascending order
  on \<open>next_execution\<close>.
\<close>

theorem Task_lt_reversed:
  assumes "next_execution a < next_execution b"
  shows "\<not> Task_lt a b \<and> Task_lt b a"
  using assms by (simp add: Task_lt_def)

theorem Task_lt_reversed_witness:
  "next_execution (ex_heap 0 0) < next_execution (ex_heap 10 1)
   \<and> \<not> Task_lt (ex_heap 0 0) (ex_heap 10 1) \<and> Task_lt (ex_heap 10 1) (ex_heap 0 0)"
proof -
  have h: "next_execution (ex_heap 0 0) < next_execution (ex_heap 10 1)"
    by (simp add: ex_heap_simp)
  show ?thesis using h Task_lt_reversed [OF h] by simp
qed

subsection \<open>One-shot execution\<close>

lemma execute_one_shot:
  assumes "delay self = 0"
  shows "execute e clks self =
           ((case fst (payload e self) of None \<Rightarrow> Returned | Some err \<Rightarrow> Raised err),
            self, [snd (payload e self)])"
  using assms by (simp add: execute_def split: prod.splits option.splits)

text \<open>
  C10. A OneShotTask constructed with any \<^verbatim>\<open>fn\<close> and \<^verbatim>\<open>args\<close> has \<open>fn = None\<close> and
  \<open>args = None\<close>. Its \<^verbatim>\<open>execute()\<close> makes one call, to the method \<^verbatim>\<open>task()\<close> without keyword,
  and none to the callable it was given: with the method of \<^verbatim>\<open>Task\<close> it raises
  \<^verbatim>\<open>NotImplementedError\<close>; with a subclass that overrides \<^verbatim>\<open>task\<close> it ends as that method
  does.
\<close>

theorem OneShotTask_discards_fn:
  "\<not> isl (OneShotTask_init c fn_p args_p nm self_id now rnd)
   \<and> fn (projr (OneShotTask_init c fn_p args_p nm self_id now rnd)) = None
   \<and> args (projr (OneShotTask_init c fn_p args_p nm self_id now rnd)) = None
   \<and> execute e clks (projr (OneShotTask_init OneShotTaskC fn_p args_p nm self_id now rnd)) =
       (Raised NotImplementedError,
        projr (OneShotTask_init OneShotTaskC fn_p args_p nm self_id now rnd),
        [TaskMethod None])
   \<and> execute e clks (projr (OneShotTask_init SubclassC fn_p args_p nm self_id now rnd)) =
       ((case e (TaskMethod None) of None \<Rightarrow> Returned | Some err \<Rightarrow> Raised err),
        projr (OneShotTask_init SubclassC fn_p args_p nm self_id now rnd),
        [TaskMethod None])"
  by (simp add: OneShotTask_init_def Task_init_NotTuple execute_one_shot payload_def)

text \<open>
  C5. For a Task with \<open>delay = 0\<close>, \<^verbatim>\<open>execute()\<close> calls the payload once, whatever the number
  of clock readings offered to it: the callable with its argument, the callable alone, or
  the method \<^verbatim>\<open>task\<close> with or without keywords. It returns when that call returns and
  raises the exception of that call when it raises one: what the environment answers for
  the callable or for an overriding \<^verbatim>\<open>task\<close>, \<^verbatim>\<open>NotImplementedError\<close> (or \<^verbatim>\<open>TypeError\<close>, on
  keywords) from the \<^verbatim>\<open>task\<close> of \<^verbatim>\<open>Task\<close>. Every field of the Task is as it was,
  \<open>next_execution\<close> included. In the event loop, the step of an asyncio task that begins the
  \<^verbatim>\<open>execute()\<close> of such a Task makes that one call, changes neither the heap nor the registry,
  and finishes the asyncio task: a later step of it makes no call.
\<close>

theorem execute_one_shot_runs_once:
  assumes "delay self = 0"
  shows "execute e clks self =
           ((case (case fn self of
                     Some f \<Rightarrow> (case args self of Some a \<Rightarrow> e (FnArgs f a) | None \<Rightarrow> e (Fn f))
                   | None \<Rightarrow>
                       (if cls self = SubclassC then e (TaskMethod (u_kwargs self))
                        else (case u_kwargs self of
                                Some (k # ks) \<Rightarrow> Some TypeError
                              | _ \<Rightarrow> Some NotImplementedError)))
             of None \<Rightarrow> Returned | Some err \<Rightarrow> Raised err),
            self,
            [case fn self of
               Some f \<Rightarrow> (case args self of Some a \<Rightarrow> FnArgs f a | None \<Rightarrow> Fn f)
             | None \<Rightarrow> TaskMethod (u_kwargs self)])
         \<and> (h < n_aio w \<and> \<not> finished (aio_tasks w h) \<and> \<not> cancel_requested (aio_tasks w h)
              \<and> \<not> entered (aio_tasks w h) \<and> heap w (coro (aio_tasks w h)) = self
            \<longrightarrow> snd (resume e clk h w) =
                  [(h, case fn self of
                         Some f \<Rightarrow> (case args self of Some a \<Rightarrow> FnArgs f a | None \<Rightarrow> Fn f)
                       | None \<Rightarrow> TaskMethod (u_kwargs self))]
                \<and> heap (fst (resume e clk h w)) = heap w
                \<and> tasks (fst (resume e clk h w)) = tasks w
                \<and> finished (aio_tasks (fst (resume e clk h w)) h)
                \<and> snd (resume e' clk' h (fst (resume e clk h w))) = [])"
proof -
  have t: "task e c kw =
             (if c = SubclassC then e (TaskMethod kw)
              else (case kw of Some (k # ks) \<Rightarrow> Some TypeError | _ \<Rightarrow> Some NotImplementedError))"
    for c kw
    by (cases "(e, c, kw)" rule: task.cases) simp_all
  have p1: "fst (payload e self) =
              (case fn self of
                 Some f \<Rightarrow> (case args self of Some a \<Rightarrow> e (FnArgs f a) | None \<Rightarrow> e (Fn f))
               | None \<Rightarrow>
                   (if cls self = SubclassC then e (TaskMethod (u_kwargs self))
                    else (case u_kwargs self of
                            Some (k # ks) \<Rightarrow> Some TypeError
                          | _ \<Rightarrow> Some NotImplementedError)))"
    by (simp add: payload_def t split: option.splits)
  have p2: "snd (payload e self) =
             (case fn self of
                Some f \<Rightarrow> (case args self of Some a \<Rightarrow> FnArgs f a | None \<Rightarrow> Fn f)
              | None \<Rightarrow> TaskMethod (u_kwargs self))"
    by (simp add: payload_def split: option.splits)
  have 1: "execute e clks self =
           ((case fst (payload e self) of None \<Rightarrow> Returned | Some err \<Rightarrow> Raised err),
            self, [snd (payload e self)])" for clks
    using assms by (rule execute_one_shot)
  have 3: "resume e clk h w =
             (w\<lparr>aio_tasks := (aio_tasks w)(h := (aio_tasks w h)\<lparr>entered := True, finished := True\<rparr>)\<rparr>,
              [(h, snd (payload e self))])"
    if "h < n_aio w" "\<not> finished (aio_tasks w h)" "\<not> cancel_requested (aio_tasks w h)"
       "\<not> entered (aio_tasks w h)" "heap w (coro (aio_tasks w h)) = self"
  proof -
    from that(5) have "(heap w)(coro (aio_tasks w h) := self) = heap w" by auto
    with that show ?thesis by (simp add: resume_def Let_def 1 split: option.splits)
  qed
  have 4: "snd (resume e' clk' h
                 (w\<lparr>aio_tasks := (aio_tasks w)(h := (aio_tasks w h)\<lparr>entered := True, finished := True\<rparr>)\<rparr>)) = []"
    by (simp add: resume_def)
  have a: "execute e clks self =
           ((case (case fn self of
                     Some f \<Rightarrow> (case args self of Some a \<Rightarrow> e (FnArgs f a) | None \<Rightarrow> e (Fn f))
                   | None \<Rightarrow>
                       (if cls self = SubclassC then e (TaskMethod (u_kwargs self))
                        else (case u_kwargs self of
                                Some (k # ks) \<Rightarrow> Some TypeError
                              | _ \<Rightarrow> Some NotImplementedError)))
             of None \<Rightarrow> Returned | Some err \<Rightarrow> Raised err),
            self,
            [case fn self of
               Some f \<Rightarrow> (case args self of Some a \<Rightarrow> FnArgs f a | None \<Rightarrow> Fn f)
             | None \<Rightarrow> TaskMethod (u_kwargs self)])"
    unfolding 1 p1 p2 ..
  have b: "snd (resume e clk h w) =
                  [(h, case fn self of
                         Some f \<Rightarrow> (case args self of Some a \<Rightarrow> FnArgs f a | None \<Rightarrow> Fn f)
                       | None \<Rightarrow> TaskMethod (u_kwargs self))]
                \<and> heap (fst (resume e clk h w)) = heap w
                \<and> tasks (fst (resume e clk h w)) = tasks w
                \<and> finished (aio_tasks (fst (resume e clk h w)) h)
                \<and> snd (resume e' clk' h (fst (resume e clk h w))) = []"
    if "h < n_aio w" "\<not> finished (aio_tasks w h)" "\<not> cancel_requested (aio_tasks w h)"
       "\<not> entered (aio_tasks w h)" "heap w (coro (aio_tasks w h)) = self"
    unfolding 3 [OF that] using 4 by (simp add: p2)
  from a b show ?thesis by blast
qed

theorem execute_one_shot_runs_once_witness:
  "delay (heap (start 0 (ex_world 0)) 0) = 0
   \<and> 0 < n_aio (start 0 (ex_world 0))
   \<and> \<not> finished (aio_tasks (start 0 (ex_world 0)) 0)
   \<and> \<not> cancel_requested (aio_tasks (start 0 (ex_world 0)) 0)
   \<and> \<not> entered (aio_tasks (start 0 (ex_world 0)) 0)
   \<and> coro (aio_tasks (start 0 (ex_world 0)) 0) = 0
   \<and> execute ex_env [(1001, 1002, 1003), (1004, 1005, 1006)] (heap (start 0 (ex_world 0)) 0)
       = (Returned, heap (start 0 (ex_world 0)) 0, [Fn (Callable 0)])
   \<and> execute ex_env_raising [(1001, 1002, 1003), (1004, 1005, 1006)] (heap (start 0 (ex_world 0)) 0)
       = (Raised Timeout, heap (start 0 (ex_world 0)) 0, [Fn (Callable 0)])
   \<and> delay ex_task_args = 0
   \<and> execute ex_env_raising [(1001, 1002, 1003)] ex_task_args
       = (Raised Timeout, ex_task_args, [FnArgs (Callable 7) (Obj 8)])
   \<and> delay ex_task_bare = 0
   \<and> execute ex_env [] ex_task_bare = (Raised NotImplementedError, ex_task_bare, [TaskMethod None])
   \<and> snd (resume ex_env_raising (1001, 1002, 1003) 0 (start 0 (ex_world 0))) = [(0, Fn (Callable 0))]
   \<and> tasks (fst (resume ex_env_raising (1001, 1002, 1003) 0 (start 0 (ex_world 0)))) = [0]
   \<and> snd (resume ex_env (1004, 1005, 1006) 0
            (fst (resume ex_env_raising (1001, 1002, 1003) 0 (start 0 (ex_world 0))))) = []"
proof -
  have d: "delay (heap (start 0 (ex_world 0)) 0) = 0"
    by (simp add: start_def create_task_def ex_world_def ex_heap_simp)
  have f: "fn (heap (start 0 (ex_world 0)) 0) = Some (Callable 0)"
          "args (heap (start 0 (ex_world 0)) 0) = None"
    by (simp_all add: start_def create_task_def ex_world_def ex_heap_simp)
  have w: "0 < n_aio (start 0 (ex_world 0)) \<and> \<not> finished (aio_tasks (start 0 (ex_world 0)) 0)
           \<and> \<not> cancel_requested (aio_tasks (start 0 (ex_world 0)) 0)
           \<and> \<not> entered (aio_tasks (start 0 (ex_world 0)) 0)
           \<and> coro (aio_tasks (start 0 (ex_world 0)) 0) = 0"
    by (simp add: start_def create_task_def ex_world_def)
  have t: "tasks (start 0 (ex_world 0)) = [0]"
    by (simp add: start_def create_task_def ex_world_def)
  have ta: "ex_task_args =
              \<lparr> cls = TaskC, id_task = 3, name = ''Task_'' @ str_nat 3,
                fn = Some (Callable 7), args = Some (Obj 8), delay = 0,
                previous_execution = None, average_execution_delay = 0, average_latency = 0,
                next_execution = 1000, execution_time = 0, count = 0,
                u_kwargs = None, u_task = None, aio_task = None \<rparr>"
    by (simp add: ex_task_args_def Task_init_def)
  have tb: "ex_task_bare =
              \<lparr> cls = TaskC, id_task = 4, name = ''Task_'' @ str_nat 4,
                fn = None, args = None, delay = 0,
                previous_execution = None, average_execution_delay = 0, average_latency = 0,
                next_execution = 1000, execution_time = 0, count = 0,
                u_kwargs = None, u_task = None, aio_task = None \<rparr>"
    by (simp add: ex_task_bare_def Task_init_def)
  have da: "delay ex_task_args = 0" by (simp add: ta)
  have db: "delay ex_task_bare = 0" by (simp add: tb)
  have fa: "fn ex_task_args = Some (Callable 7)" "args ex_task_args = Some (Obj 8)" by (simp_all add: ta)
  have fb: "fn ex_task_bare = None" "cls ex_task_bare = TaskC" "u_kwargs ex_task_bare = None"
    by (simp_all add: tb)
  have 1: "execute ex_env [(1001, 1002, 1003), (1004, 1005, 1006)] (heap (start 0 (ex_world 0)) 0)
             = (Returned, heap (start 0 (ex_world 0)) 0, [Fn (Callable 0)])"
    using execute_one_shot_runs_once [OF d, of ex_env "[(1001, 1002, 1003), (1004, 1005, 1006)]"]
    by (simp add: f ex_env_def)
  have 2: "execute ex_env_raising [(1001, 1002, 1003), (1004, 1005, 1006)] (heap (start 0 (ex_world 0)) 0)
             = (Raised Timeout, heap (start 0 (ex_world 0)) 0, [Fn (Callable 0)])"
    using execute_one_shot_runs_once [OF d, of ex_env_raising "[(1001, 1002, 1003), (1004, 1005, 1006)]"]
    by (simp add: f ex_env_raising_def)
  have 3: "execute ex_env_raising [(1001, 1002, 1003)] ex_task_args
             = (Raised Timeout, ex_task_args, [FnArgs (Callable 7) (Obj 8)])"
    using execute_one_shot_runs_once [OF da, of ex_env_raising "[(1001, 1002, 1003)]"]
    by (simp add: fa ex_env_raising_def)
  have 4: "execute ex_env [] ex_task_bare = (Raised NotImplementedError, ex_task_bare, [TaskMethod None])"
    using execute_one_shot_runs_once [OF db, of ex_env "[]"]
    by (simp add: fb)
  have 5: "snd (resume ex_env_raising (1001, 1002, 1003) 0 (start 0 (ex_world 0))) = [(0, Fn (Callable 0))]
           \<and> tasks (fst (resume ex_env_raising (1001, 1002, 1003) 0 (start 0 (ex_world 0)))) = [0]
           \<and> snd (resume ex_env (1004, 1005, 1006) 0
                    (fst (resume ex_env_raising (1001, 1002, 1003) 0 (start 0 (ex_world 0))))) = []"
    using w execute_one_shot_runs_once [OF d, of ex_env_raising "[]" 0
        "start 0 (ex_world 0)" "(1001, 1002, 1003)" ex_env "(1004, 1005, 1006)"]
    by (simp add: f t)
  from d w da db 1 2 3 4 5 show ?thesis by simp
qed

subsection \<open>Starting and stopping\<close>

lemma start_tasks: "tasks (start r w) = tasks w @ [r]"
  by (simp add: start_def create_task_def)

lemma start_id: "id_task (heap (start r w) r') = id_task (heap w r')"
  by (simp add: start_def create_task_def)

lemma cancel_heap: "heap (cancel h w) = heap w"
  by (simp add: cancel_def)

lemma cancel_tasks: "tasks (cancel h w) = tasks w"
  by (simp add: cancel_def)

lemma cancel_each_heap: "heap (snd (cancel_each rs w)) = heap w"
  by (induction rs arbitrary: w) (auto simp: cancel_heap split: option.splits)

lemma cancel_each_tasks: "tasks (snd (cancel_each rs w)) = tasks w"
  by (induction rs arbitrary: w) (auto simp: cancel_tasks cancel_heap split: option.splits)

lemma stop_heap: "heap (snd (stop r w)) = heap w"
  by (simp add: stop_def cancel_heap split: option.splits)

lemma stop_tasks: "tasks (snd (stop r w)) = tasks w"
  by (simp add: stop_def cancel_tasks split: option.splits)

lemma stopAllTasks_heap: "heap (snd (stopAllTasks w)) = heap w"
proof (cases "cancel_each (tasks w) w")
  case (Pair r w1)
  with cancel_each_heap [of "tasks w" w] show ?thesis
    by (cases r) (simp_all add: stopAllTasks_def clean_tasklist_def)
qed

lemma stopAllTasks_tasks: "tasks (snd (stopAllTasks w)) = tasks w \<or> tasks (snd (stopAllTasks w)) = []"
proof (cases "cancel_each (tasks w) w")
  case (Pair r w1)
  with cancel_each_tasks [of "tasks w" w] show ?thesis
    by (cases r) (simp_all add: stopAllTasks_def clean_tasklist_def)
qed

text \<open>
  The constructor leaves \<^verbatim>\<open>_task\<close> at \<^verbatim>\<open>None\<close>, and \<^verbatim>\<open>start\<close> does not set it: it sets
  \<^verbatim>\<open>aio_task\<close>.
\<close>

lemma Task_init_u_task:
  "Task_init c fn_p nm d r now rnd = Inr t \<Longrightarrow> u_task t = None"
  by (auto simp: Task_init_def split: sum.splits prod.splits)

lemma start_u_task: "u_task (heap (start r w) r') = u_task (heap w r')"
  by (simp add: start_def create_task_def)

text \<open>
  C2. \<^verbatim>\<open>stop()\<close> on a started Task is to request the cancellation of its loop without
  raising. Here the Task at reference 0, constructed with a callable and a delay of 10, is
  started and then stopped: \<^verbatim>\<open>stop()\<close> raises \<^verbatim>\<open>AttributeError\<close>, the world is as it was
  before the call, no cancellation is requested of the loop, and the loop makes its next
  run.
\<close>

theorem stop_raises_AttributeError:
  "stop 0 (start 0 (ex_world 10)) = (Some AttributeError, start 0 (ex_world 10))
   \<and> \<not> cancel_requested (aio_tasks (snd (stop 0 (start 0 (ex_world 10)))) 0)
   \<and> snd (resume ex_env (1011, 1012, 1013) 0 (snd (stop 0 (start 0 (ex_world 10)))))
       = [(0, Fn (Callable 0))]"
  by (simp add: stop_def start_def create_task_def resume_def execute_def iteration_def
      payload_def truthy_def ex_env_def ex_world_def ex_heap_simp Let_def)

subsection \<open>The ids in the registry\<close>

lemma apply_op_id: "id_task (heap (apply_op x w) r) = id_task (heap w r)"
  by (cases x) (simp_all add: start_id stop_heap stopAllTasks_heap)

lemma apply_ops_id: "id_task (heap (apply_ops xs w) r) = id_task (heap w r)"
  by (induction xs arbitrary: w) (simp_all add: apply_op_id)

lemma starts_fresh_distinct:
  "distinct (tasks w) \<Longrightarrow> starts_fresh xs w \<Longrightarrow> distinct (tasks (apply_ops xs w))"
proof (induction xs arbitrary: w)
  case Nil
  then show ?case by simp
next
  case (Cons x xs)
  show ?case
  proof (cases x)
    case (Start r)
    with Cons.prems have "distinct (tasks (start r w))" "starts_fresh xs (start r w)"
      by (simp_all add: start_tasks)
    with Cons.IH Start show ?thesis by simp
  next
    case (Stop r)
    with Cons.prems have "distinct (tasks (snd (stop r w)))" "starts_fresh xs (snd (stop r w))"
      by (simp_all add: stop_tasks)
    with Cons.IH Stop show ?thesis by simp
  next
    case StopAll
    from stopAllTasks_tasks [of w] Cons.prems have "distinct (tasks (snd (stopAllTasks w)))"
      by auto
    moreover from Cons.prems StopAll have "starts_fresh xs (snd (stopAllTasks w))" by simp
    ultimately show ?thesis using Cons.IH StopAll by simp
  qed
qed

text \<open>
  C8, as stated: after any sequence of \<^verbatim>\<open>start()\<close> and cancellation calls no two entries
  of the registry have the same id. It fails when a Task is started twice: \<^verbatim>\<open>start\<close>
  appends without looking, and the registry then holds the id 0 twice.
\<close>

theorem registry_ids_start_twice:
  "registry_ids (apply_ops [Start 0, Start 0] (ex_world 10)) = [0, 0]
   \<and> \<not> distinct (registry_ids (apply_ops [Start 0, Start 0] (ex_world 10)))"
  by (simp add: registry_ids_def start_def create_task_def ex_world_def ex_heap_simp)

text \<open>
  C8, amended. The id of a Task is its own reference, the registry has no two equal entries
  to begin with, and no call of the sequence starts a Task that is in the registry at that
  moment: then, after the sequence of \<^verbatim>\<open>start()\<close>, \<^verbatim>\<open>stop()\<close> and \<^verbatim>\<open>stopAllTasks()\<close> calls,
  no two entries of the registry have the same id.
\<close>

theorem registry_ids_distinct_if_starts_fresh:
  assumes "\<forall>r. id_task (heap w r) = r" and "distinct (tasks w)" and "starts_fresh xs w"
  shows "distinct (registry_ids (apply_ops xs w))"
proof -
  have "registry_ids (apply_ops xs w) = tasks (apply_ops xs w)"
    using assms(1) by (simp add: registry_ids_def apply_ops_id)
  then show ?thesis using starts_fresh_distinct [OF assms(2,3)] by simp
qed

theorem registry_ids_distinct_witness:
  "(\<forall>r. id_task (heap (ex_world 10) r) = r) \<and> distinct (tasks (ex_world 10))
   \<and> starts_fresh [Start 0, Start 1, Stop 0, StopAll, Start 0] (ex_world 10)
   \<and> distinct (registry_ids (apply_ops [Start 0, Start 1, Stop 0, StopAll, Start 0] (ex_world 10)))"
proof -
  have 1: "\<forall>r. id_task (heap (ex_world 10) r) = r" by (simp add: ex_world_def ex_heap_simp)
  have 2: "distinct (tasks (ex_world 10))" by (simp add: ex_world_def)
  have 3: "starts_fresh [Start 0, Start 1, Stop 0, StopAll, Start 0] (ex_world 10)"
    by (simp add: start_def create_task_def stop_def stopAllTasks_def cancel_def clean_tasklist_def
        ex_world_def ex_heap_simp)
  show ?thesis using 1 2 3 registry_ids_distinct_if_starts_fresh [OF 1 2 3] by simp
qed

subsection \<open>Stopping all Tasks\<close>

lemma cancel_flag:
  "cancel_requested (aio_tasks (cancel h w) h') = (h' = h \<or> cancel_requested (aio_tasks w h'))"
  by (simp add: cancel_def)

lemma cancel_each_keeps_flag:
  "cancel_requested (aio_tasks w h) \<Longrightarrow> cancel_requested (aio_tasks (snd (cancel_each rs w)) h)"
  by (induction rs arbitrary: w) (auto simp: cancel_flag cancel_heap split: option.splits)

lemma cancel_each_all:
  assumes "\<forall>r \<in> set rs. aio_task (heap w r) \<noteq> None"
  shows "fst (cancel_each rs w) = None
         \<and> (\<forall>r \<in> set rs. \<forall>h. aio_task (heap w r) = Some h
               \<longrightarrow> cancel_requested (aio_tasks (snd (cancel_each rs w)) h))"
  using assms
proof (induction rs arbitrary: w)
  case Nil
  then show ?case by simp
next
  case (Cons each rest)
  from Cons.prems obtain h where h: "aio_task (heap w each) = Some h" by auto
  from Cons.prems have "\<forall>r \<in> set rest. aio_task (heap (cancel h w) r) \<noteq> None"
    by (simp add: cancel_heap)
  from Cons.IH [OF this] have
    ih: "fst (cancel_each rest (cancel h w)) = None"
      "\<forall>r \<in> set rest. \<forall>h'. aio_task (heap w r) = Some h'
          \<longrightarrow> cancel_requested (aio_tasks (snd (cancel_each rest (cancel h w))) h')"
    by (simp_all add: cancel_heap)
  have "cancel_requested (aio_tasks (snd (cancel_each rest (cancel h w))) h)"
    by (rule cancel_each_keeps_flag) (simp add: cancel_flag)
  with ih h show ?case by auto
qed

text \<open>No step of the event loop withdraws a request, and a requested task makes no call.\<close>

lemma resume_keeps_flag:
  "cancel_requested (aio_tasks w h) \<Longrightarrow> cancel_requested (aio_tasks (fst (resume e clk h' w)) h)"
  by (auto simp: resume_def Let_def split: prod.splits)

lemma resume_calls:
  "(h', c) \<in> set (snd (resume e clk h w)) \<Longrightarrow> h' = h \<and> \<not> cancel_requested (aio_tasks w h)"
  by (auto simp: resume_def Let_def split: prod.splits if_splits)

lemma run_calls:
  "(h, c) \<in> set (snd (run sched w)) \<Longrightarrow> \<not> cancel_requested (aio_tasks w h)"
proof (induction sched arbitrary: w)
  case Nil
  then show ?case by simp
next
  case (Cons x sched)
  obtain e clk h' where x: "x = (e, clk, h')" by (cases x) auto
  obtain w1 cs where r: "resume e clk h' w = (w1, cs)" by (cases "resume e clk h' w")
  obtain w2 cs' where r2: "run sched w1 = (w2, cs')" by (cases "run sched w1")
  from Cons.prems x r r2 have "(h, c) \<in> set cs \<or> (h, c) \<in> set cs'" by auto
  then show ?case
  proof
    assume "(h, c) \<in> set cs"
    with r resume_calls [of h c e clk h' w] show ?thesis by simp
  next
    assume "(h, c) \<in> set cs'"
    with r2 Cons.IH [of w1] have "\<not> cancel_requested (aio_tasks w1 h)" by simp
    with r resume_keeps_flag [of w h e clk h'] show ?thesis by auto
  qed
qed

lemma stopAllTasks_empty: "tasks w = [] \<Longrightarrow> stopAllTasks w = (Inr True, w)"
  by (simp add: stopAllTasks_def clean_tasklist_def)

text \<open>
  C6, as stated: after \<^verbatim>\<open>stopAllTasks()\<close> no loop of a Task that was in the registry makes
  a further run. It fails for a Task that was started twice: \<^verbatim>\<open>aio_task\<close> holds the loop of
  the second \<^verbatim>\<open>start()\<close> only, so the loop of the first, handle 0, is never asked to stop.
  \<^verbatim>\<open>stopAllTasks()\<close> returns \<^verbatim>\<open>True\<close>, and the next step of loop 0 runs the payload.
\<close>

theorem stopAllTasks_misses_first_loop:
  "fst (stopAllTasks (start 0 (start 0 (ex_world 10)))) = Inr True
   \<and> snd (resume ex_env (1011, 1012, 1013) 0 (snd (stopAllTasks (start 0 (start 0 (ex_world 10))))))
       = [(0, Fn (Callable 0))]"
  by (simp add: stopAllTasks_def cancel_def clean_tasklist_def start_def create_task_def
      resume_def execute_def iteration_def payload_def ex_env_def truthy_def ex_world_def
      ex_heap_simp Let_def)

text \<open>
  C6, amended. Every Task in the registry has an \<^verbatim>\<open>aio_task\<close>, as \<^verbatim>\<open>start()\<close> leaves it.
  Then \<^verbatim>\<open>stopAllTasks()\<close> returns \<^verbatim>\<open>True\<close> and leaves \<open>number_of_tasks() = 0\<close>; for every
  Task that was in the registry, cancellation is requested of the loop its \<^verbatim>\<open>aio_task\<close>
  holds, the one of its latest \<^verbatim>\<open>start()\<close>, and under every schedule of the event loop that
  loop makes no further run; a second call right after the first returns \<^verbatim>\<open>True\<close> and
  changes nothing; and on an empty registry the call changes nothing.
\<close>

theorem stopAllTasks_cancels_and_clears:
  assumes "\<forall>r \<in> set (tasks w). aio_task (heap w r) \<noteq> None"
  shows "fst (stopAllTasks w) = Inr True
         \<and> number_of_tasks (snd (stopAllTasks w)) = 0
         \<and> (\<forall>r \<in> set (tasks w). \<forall>h. aio_task (heap w r) = Some h \<longrightarrow>
               cancel_requested (aio_tasks (snd (stopAllTasks w)) h)
               \<and> h \<notin> fst ` set (snd (run sched (snd (stopAllTasks w)))))
         \<and> stopAllTasks (snd (stopAllTasks w)) = (Inr True, snd (stopAllTasks w))
         \<and> (tasks w = [] \<longrightarrow> stopAllTasks w = (Inr True, w))"
proof -
  obtain r w1 where c: "cancel_each (tasks w) w = (r, w1)" by (cases "cancel_each (tasks w) w")
  from cancel_each_all [OF assms] c have r: "r = None"
    and fl: "\<forall>r \<in> set (tasks w). \<forall>h. aio_task (heap w r) = Some h \<longrightarrow> cancel_requested (aio_tasks w1 h)"
    by simp_all
  from c r have s: "stopAllTasks w = (Inr True, clean_tasklist w1)"
    by (simp add: stopAllTasks_def)
  have t: "tasks (clean_tasklist w1) = []" by (simp add: clean_tasklist_def)
  have a: "aio_tasks (clean_tasklist w1) = aio_tasks w1" by (simp add: clean_tasklist_def)
  have "h \<notin> fst ` set (snd (run sched (clean_tasklist w1)))"
    if "cancel_requested (aio_tasks w1 h)" for h
    using that run_calls [of h _ sched "clean_tasklist w1"] a by force
  with fl s t a stopAllTasks_empty [OF t] stopAllTasks_empty [of w] show ?thesis
    by (simp add: number_of_tasks_def)
qed

theorem stopAllTasks_witness:
  "tasks (start 1 (start 0 (ex_world 10))) = [0, 1]
   \<and> aio_task (heap (start 1 (start 0 (ex_world 10))) 0) = Some 0
   \<and> aio_task (heap (start 1 (start 0 (ex_world 10))) 1) = Some 1
   \<and> fst (stopAllTasks (start 1 (start 0 (ex_world 10)))) = Inr True
   \<and> number_of_tasks (snd (stopAllTasks (start 1 (start 0 (ex_world 10))))) = 0
   \<and> 0 \<notin> fst ` set (snd (run [(ex_env, (1011, 1012, 1013), 0), (ex_env, (1011, 1012, 1013), 1)]
                            (snd (stopAllTasks (start 1 (start 0 (ex_world 10)))))))
   \<and> 1 \<notin> fst ` set (snd (run [(ex_env, (1011, 1012, 1013), 0), (ex_env, (1011, 1012, 1013), 1)]
                            (snd (stopAllTasks (start 1 (start 0 (ex_world 10)))))))"
proof -
  have 1: "\<forall>r \<in> set (tasks (start 1 (start 0 (ex_world 10)))).
             aio_task (heap (start 1 (start 0 (ex_world 10))) r) \<noteq> None"
    by (simp add: start_def create_task_def ex_world_def)
  have 2: "aio_task (heap (start 1 (start 0 (ex_world 10))) 0) = Some 0"
       "aio_task (heap (start 1 (start 0 (ex_world 10))) 1) = Some 1"
       "tasks (start 1 (start 0 (ex_world 10))) = [0, 1]"
    by (simp_all add: start_def create_task_def ex_world_def)
  show ?thesis
    using 2 stopAllTasks_cancels_and_clears [OF 1,
        of "[(ex_env, (1011, 1012, 1013), 0), (ex_env, (1011, 1012, 1013), 1)]"]
    by simp
qed

subsection \<open>The liveness sweep\<close>

lemma sweep_Cons:
  "sweep n ((oid, each) # rest) =
     (case fst (check n oid each) of
        Some err \<Rightarrow>
          (Some err, (oid, fst (snd (check n oid each))) # rest, [(oid, snd (snd (check n oid each)))])
      | None \<Rightarrow>
          (fst (sweep n rest),
           (oid, fst (snd (check n oid each))) # fst (snd (sweep n rest)),
           (oid, snd (snd (check n oid each))) # snd (snd (sweep n rest))))"
  by (simp split: prod.splits option.splits)

text \<open>The sweep keeps the identities of the devices, and checks registered devices only.\<close>

lemma sweep_keys: "map fst (fst (snd (sweep n ds))) = map fst ds"
proof (induction ds)
  case Nil
  then show ?case by simp
next
  case (Cons x ds)
  obtain oid each where x: "x = (oid, each)" by (cases x)
  from Cons.IH show ?case
    unfolding x sweep_Cons by (simp split: option.splits)
qed

lemma sweep_trace_keys: "fst ` set (snd (snd (sweep n ds))) \<subseteq> fst ` set ds"
proof (induction ds)
  case Nil
  then show ?case by simp
next
  case (Cons x ds)
  obtain oid each where x: "x = (oid, each)" by (cases x)
  from Cons.IH show ?case
    unfolding x sweep_Cons by (auto split: option.splits)
qed

text \<open>When no check of the first devices raises, the sweep goes on with the others.\<close>

lemma sweep_append:
  assumes "fst (sweep n pre) = None"
  shows "sweep n (pre @ rest) =
           (fst (sweep n rest),
            fst (snd (sweep n pre)) @ fst (snd (sweep n rest)),
            snd (snd (sweep n pre)) @ snd (snd (sweep n rest)))"
  using assms
proof (induction pre)
  case Nil
  then show ?case by simp
next
  case (Cons x pre)
  obtain oid each where x: "x = (oid, each)" by (cases x)
  from Cons.prems have c: "fst (check n oid each) = None" and p: "fst (sweep n pre) = None"
    unfolding x sweep_Cons by (simp_all split: option.splits)
  from Cons.IH [OF p] c show ?case
    unfolding x append_Cons sweep_Cons by simp
qed

lemma events_of_append: "events_of oid (tr @ tr') = events_of oid tr @ events_of oid tr'"
  by (simp add: events_of_def)

lemma events_of_absent: "oid \<notin> fst ` set tr \<Longrightarrow> events_of oid tr = []"
  by (induction tr) (auto simp: events_of_def)

lemma events_of_Cons: "events_of oid ((oid, ev) # tr) = ev @ events_of oid tr"
  by (simp add: events_of_def)

text \<open>
  The events of a device that the sweep reaches are those of its one check, and the state
  the sweep leaves it in is the one its check leaves.
\<close>

lemma sweep_events_of:
  assumes dist: "distinct (map fst (pre @ (oid, each) # post))"
    and reached: "fst (sweep n pre) = None"
  shows "events_of oid (snd (snd (sweep n (pre @ (oid, each) # post)))) = snd (snd (check n oid each))"
proof -
  from dist have pre: "oid \<notin> fst ` set pre" and post: "oid \<notin> fst ` set post" by auto
  from pre sweep_trace_keys [of n pre] have 1: "events_of oid (snd (snd (sweep n pre))) = []"
    by (intro events_of_absent) auto
  from post sweep_trace_keys [of n post] have 2: "events_of oid (snd (snd (sweep n post))) = []"
    by (intro events_of_absent) auto
  have "events_of oid (snd (snd (sweep n ((oid, each) # post)))) = snd (snd (check n oid each))"
    unfolding sweep_Cons using 2 by (simp add: events_of_Cons events_of_def split: option.splits)
  with 1 show ?thesis by (simp add: sweep_append [OF reached] events_of_append)
qed

lemma sweep_state_of:
  assumes dist: "distinct (map fst (pre @ (oid, each) # post))"
    and reached: "fst (sweep n pre) = None"
  shows "map_of (fst (snd (sweep n (pre @ (oid, each) # post)))) oid = Some (fst (snd (check n oid each)))"
proof -
  from dist have "oid \<notin> set (map fst pre)" by auto
  then have "oid \<notin> fst ` set (fst (snd (sweep n pre)))"
    using sweep_keys [of n pre] by (metis set_map)
  then have 1: "map_of (fst (snd (sweep n pre))) oid = None"
    by (simp add: map_of_eq_None_iff)
  have 2: "map_of (fst (snd (sweep n ((oid, each) # post)))) oid = Some (fst (snd (check n oid each)))"
    unfolding sweep_Cons by (simp split: option.splits)
  from 1 2 show ?thesis by (simp add: sweep_append [OF reached] map_add_def)
qed

lemma sweep_result_of:
  assumes "fst (sweep n pre) = None"
  shows "fst (sweep n (pre @ (oid, each) # post)) =
           (case fst (check n oid each) of Some err \<Rightarrow> Some err | None \<Rightarrow> fst (sweep n post))"
  by (simp add: sweep_append [OF assms] sweep_Cons del: sweep.simps split: option.splits)

lemma ping_registered_devices_eq:
  "ping_registered_devices n l =
     (fst (sweep n (u_registered_devices l)),
      l\<lparr>u_registered_devices := fst (snd (sweep n (u_registered_devices l)))\<rparr>,
      snd (snd (sweep n (u_registered_devices l))))"
  by (simp add: ping_registered_devices_def registered_devices_def split: prod.splits)

lemma ping_registered_devices_keys:
  "map fst (u_registered_devices (fst (snd (ping_registered_devices n l)))) = map fst (u_registered_devices l)"
  by (simp add: ping_registered_devices_eq sweep_keys)

text \<open>
  The check of a device of class \<^verbatim>\<open>RPDeviceConnected\<close> or \<^verbatim>\<open>RPMDeviceConnected\<close> in which
  \<^verbatim>\<open>NumerousPingFailures\<close> is raised, by the sweep after the ping or by the ping: it ends as
  the \<^verbatim>\<open>disconnect\<close> of the handler ends and leaves the device as that call leaves it.
\<close>

lemma check_NumerousPingFailures:
  assumes "kind each = RPDeviceConnected \<or> kind each = RPMDeviceConnected"
    and "fst (ping n oid each) = Some NumerousPingFailures
         \<or> (fst (ping n oid each) = None \<and> 3 < ping_failures (properties (snd (ping n oid each))))"
  shows "check n oid each =
           (fst (disconnect n oid (snd (ping n oid each)) False),
            snd (disconnect n oid (snd (ping n oid each)) False),
            [Debug (''Ping '' @ name_prop (properties each) @ ''|'' @ address (properties each)),
             Ping,
             Warning (name_prop (properties (snd (ping n oid each))) @ ''|''
                      @ address (properties (snd (ping n oid each)))
                      @ '' is offline, disconnecting it.''),
             Disconnect False])"
  using assms
  by (cases "ping n oid each")
     (auto simp: check_def except_NumerousPingFailures_def split: prod.splits option.splits)

text \<open>The check of a device of another class: the coroutine object is never the name.\<close>

lemma check_not_awaited:
  assumes "kind each \<noteq> RPDeviceConnected" and "kind each \<noteq> RPMDeviceConnected"
  shows "check n oid each =
           (None, each,
            [Read (address (properties each) @ '' device '' @ str_int (device_id (properties each))
                   @ '' objectName'')])"
  using assms by (simp add: check_def)

lemma str_int_5: "str_int 5 = ''5''"
  by code_simp

text \<open>
  C4, as stated: every registered device of class \<^verbatim>\<open>RPDeviceConnected\<close> or
  \<^verbatim>\<open>RPMDeviceConnected\<close> whose \<open>ping_failures\<close> exceeds 3 after the ping gets one
  \<^verbatim>\<open>disconnect(unregister=False)\<close>. It fails when the ping counts the failure and then
  raises: here the one registered device has 3 failures, the ping leaves it with 4 and
  raises \<^verbatim>\<open>NoResponseFromController\<close>, which is not the exception the handler is for. The
  exception leaves the sweep and \<^verbatim>\<open>disconnect\<close> is not called.
\<close>

theorem sweep_no_disconnect_when_ping_raises:
  "u_registered_devices (unregister_device 0 (unregister_device 2 ex_lite))
     = [(1, ex_device RPMDeviceConnected ''dev'' 3)]
   \<and> ping ex_net_silent 1 (ex_device RPMDeviceConnected ''dev'' 3)
       = (Some NoResponseFromController, ex_device RPMDeviceConnected ''dev'' 4)
   \<and> 3 < ping_failures (properties (ex_device RPMDeviceConnected ''dev'' 4))
   \<and> ping_registered_devices ex_net_silent (unregister_device 0 (unregister_device 2 ex_lite))
       = (Some NoResponseFromController,
          \<lparr>u_registered_devices = [(1, ex_device RPMDeviceConnected ''dev'' 4)]\<rparr>,
          [(1, [Debug ''Ping dev|2:5'', Ping])])
   \<and> count_list (events_of 1 (snd (snd (ping_registered_devices ex_net_silent
                    (unregister_device 0 (unregister_device 2 ex_lite)))))) (Disconnect False) = 0"
  by (simp add: ping_registered_devices_def registered_devices_def unregister_device_def check_def
      events_of_def ex_net_silent_def ex_net_def ex_lite_def ex_device_def)

text \<open>
  C4, amended. In a sweep that reaches a registered device of class \<^verbatim>\<open>RPDeviceConnected\<close>
  or \<^verbatim>\<open>RPMDeviceConnected\<close> (no check of a device before it let an exception out), when the
  ping of the device returns and leaves \<open>ping_failures > 3\<close>, the monitor calls
  \<^verbatim>\<open>disconnect(unregister=False)\<close> on the device as the ping left it, once: the events of the
  device are the ping, the warning and that one call, \<open>Disconnect True\<close> is not among them,
  the device is left as that call leaves it, and the sweep ends with the exception of that
  call if it raises one and goes on with the devices after it otherwise. Whatever happens
  in a sweep, the registry holds the same identities after it as before.
\<close>

theorem sweep_disconnects_after_failures:
  assumes "distinct (map fst (u_registered_devices l))"
    and "u_registered_devices l = pre @ (oid, each) # post"
    and "fst (sweep n pre) = None"
    and "kind each = RPDeviceConnected \<or> kind each = RPMDeviceConnected"
    and "ping n oid each = (None, d1)"
    and "ping_failures (properties d1) > 3"
  shows "events_of oid (snd (snd (ping_registered_devices n l))) =
           [Debug (''Ping '' @ name_prop (properties each) @ ''|'' @ address (properties each)),
            Ping,
            Warning (name_prop (properties d1) @ ''|'' @ address (properties d1)
                     @ '' is offline, disconnecting it.''),
            Disconnect False]
         \<and> count_list (events_of oid (snd (snd (ping_registered_devices n l)))) (Disconnect False) = 1
         \<and> Disconnect True \<notin> set (events_of oid (snd (snd (ping_registered_devices n l))))
         \<and> map_of (u_registered_devices (fst (snd (ping_registered_devices n l)))) oid
             = Some (snd (disconnect n oid d1 False))
         \<and> fst (ping_registered_devices n l)
             = (case fst (disconnect n oid d1 False) of
                  Some err \<Rightarrow> Some err
                | None \<Rightarrow> fst (sweep n post))
         \<and> map fst (u_registered_devices (fst (snd (ping_registered_devices n l))))
             = map fst (u_registered_devices l)"
proof -
  from assms(5,6) have "fst (ping n oid each) = Some NumerousPingFailures
         \<or> (fst (ping n oid each) = None \<and> 3 < ping_failures (properties (snd (ping n oid each))))"
    by simp
  from check_NumerousPingFailures [OF assms(4) this] assms(5)
  have c: "check n oid each =
           (fst (disconnect n oid d1 False),
            snd (disconnect n oid d1 False),
            [Debug (''Ping '' @ name_prop (properties each) @ ''|'' @ address (properties each)),
             Ping,
             Warning (name_prop (properties d1) @ ''|'' @ address (properties d1)
                      @ '' is offline, disconnecting it.''),
             Disconnect False])"
    by simp
  have ev: "events_of oid (snd (snd (ping_registered_devices n l))) = snd (snd (check n oid each))"
    using sweep_events_of [of pre oid each post n] assms(1-3)
    by (simp add: ping_registered_devices_eq)
  have st: "map_of (u_registered_devices (fst (snd (ping_registered_devices n l)))) oid
              = Some (fst (snd (check n oid each)))"
    using sweep_state_of [of pre oid each post n] assms(1-3)
    by (simp add: ping_registered_devices_eq)
  have rs: "fst (ping_registered_devices n l) =
              (case fst (check n oid each) of Some err \<Rightarrow> Some err | None \<Rightarrow> fst (sweep n post))"
    using sweep_result_of [OF assms(3), of oid each post] assms(2)
    by (simp add: ping_registered_devices_eq)
  from ev st rs show ?thesis by (simp add: c ping_registered_devices_keys)
qed

theorem sweep_disconnects_after_failures_witness:
  "distinct (map fst (u_registered_devices ex_lite))
   \<and> fst (sweep ex_net [(0, ex_device OtherDevice ''x'' 0)]) = None
   \<and> ping ex_net 1 (ex_device RPMDeviceConnected ''dev'' 3) = (None, ex_device RPMDeviceConnected ''dev'' 4)
   \<and> disconnect ex_net 1 (ex_device RPMDeviceConnected ''dev'' 4) False
       = (None, ex_device OtherDevice ''dev'' 4)
   \<and> count_list (events_of 1 (snd (snd (ping_registered_devices ex_net ex_lite)))) (Disconnect False) = 1
   \<and> Disconnect True \<notin> set (events_of 1 (snd (snd (ping_registered_devices ex_net ex_lite))))
   \<and> map_of (u_registered_devices (fst (snd (ping_registered_devices ex_net ex_lite)))) 1
       = Some (ex_device OtherDevice ''dev'' 4)
   \<and> map fst (u_registered_devices (fst (snd (ping_registered_devices ex_net ex_lite)))) = [0, 1, 2]"
proof -
  have 1: "distinct (map fst (u_registered_devices ex_lite))" by (simp add: ex_lite_def)
  have 2: "u_registered_devices ex_lite =
             [(0, ex_device OtherDevice ''x'' 0)] @ (1, ex_device RPMDeviceConnected ''dev'' 3)
               # [(2, ex_device OtherDevice ''dev'' 4)]"
    by (simp add: ex_lite_def)
  have 3: "fst (sweep ex_net [(0, ex_device OtherDevice ''x'' 0)]) = None"
    by (simp add: check_def ex_net_def ex_device_def)
  have 4: "kind (ex_device RPMDeviceConnected ''dev'' 3) = RPDeviceConnected
           \<or> kind (ex_device RPMDeviceConnected ''dev'' 3) = RPMDeviceConnected"
    by (simp add: ex_device_def)
  have 5: "ping ex_net 1 (ex_device RPMDeviceConnected ''dev'' 3) = (None, ex_device RPMDeviceConnected ''dev'' 4)"
    by (simp add: ex_net_def ex_device_def)
  have 6: "ping_failures (properties (ex_device RPMDeviceConnected ''dev'' 4)) > 3"
    by (simp add: ex_device_def)
  have 7: "map fst (u_registered_devices ex_lite) = [0, 1, 2]" by (simp add: ex_lite_def)
  have 8: "disconnect ex_net 1 (ex_device RPMDeviceConnected ''dev'' 4) False
             = (None, ex_device OtherDevice ''dev'' 4)"
    by (simp add: ex_net_def ex_device_def)
  show ?thesis
    using 1 3 5 8 sweep_disconnects_after_failures [OF 1 2 3 4 5 6]
    by (simp add: 7)
qed

text \<open>
  C3. For a registered device that is not ping-capable the monitor is to read the name of
  the device and, when it is the stored name, to set \<open>ping_failures\<close> to 0 and call
  \<^verbatim>\<open>connect\<close> and \<^verbatim>\<open>poll\<close> once each. Here the sweep reaches device 2, of another class,
  stored name \<^verbatim>\<open>'dev'\<close>, 4 failures, on a network where awaiting the read of its name
  answers \<^verbatim>\<open>'dev'\<close>. The sweep calls \<^verbatim>\<open>self.read\<close> without awaiting it, the coroutine object
  is not the name, and nothing follows: the one event of the device is that call, there is
  no \<^verbatim>\<open>connect\<close> and no \<^verbatim>\<open>poll\<close>, and the device keeps its 4 failures.
\<close>

theorem sweep_read_not_awaited:
  "read ex_net ''2:5 device 5 objectName'' = Inr (name_prop (properties (ex_device OtherDevice ''dev'' 4)))
   \<and> fst (ping_registered_devices ex_net ex_lite) = None
   \<and> events_of 2 (snd (snd (ping_registered_devices ex_net ex_lite)))
       = [Read ''2:5 device 5 objectName'']
   \<and> count_list (events_of 2 (snd (snd (ping_registered_devices ex_net ex_lite)))) Connect = 0
   \<and> map_of (u_registered_devices (fst (snd (ping_registered_devices ex_net ex_lite)))) 2
       = Some (ex_device OtherDevice ''dev'' 4)
   \<and> ping_failures (properties (ex_device OtherDevice ''dev'' 4)) = 4"
  by (simp add: ping_registered_devices_def registered_devices_def check_def
      except_NumerousPingFailures_def events_of_def str_int_5 ex_net_def ex_lite_def ex_device_def)

text \<open>
  C1, as stated: an exception raised while a device is checked never keeps the sweep from
  the devices after it. It fails on a network where the ping raises
  \<^verbatim>\<open>NoResponseFromController\<close>: of the three registered devices, the ping of device 1
  raises, the exception leaves \<^verbatim>\<open>ping_registered_devices\<close>, and device 2 is not checked.
\<close>

theorem sweep_aborted_by_ping_exception:
  "map fst (registered_devices ex_lite) = [0, 1, 2]
   \<and> fst (ping_registered_devices ex_net_silent ex_lite) = Some NoResponseFromController
   \<and> map fst (snd (snd (ping_registered_devices ex_net_silent ex_lite))) = [0, 1]"
  by (simp add: ping_registered_devices_def registered_devices_def check_def
      ex_net_silent_def ex_net_def ex_lite_def ex_device_def)

text \<open>
  C1, amended. In a sweep that reaches a device of class \<^verbatim>\<open>RPDeviceConnected\<close> or
  \<^verbatim>\<open>RPMDeviceConnected\<close>, when \<^verbatim>\<open>NumerousPingFailures\<close> is raised in its check, by the sweep
  itself because the ping returned and left \<open>ping_failures > 3\<close> or by the ping, the
  monitor catches the exception and calls \<^verbatim>\<open>disconnect(unregister=False)\<close>; when that call
  returns, the sweep checks the devices after it exactly as a sweep of those devices alone
  would, and ends as that sweep ends.
\<close>

theorem sweep_continues_after_NumerousPingFailures:
  assumes "u_registered_devices l = pre @ (oid, each) # post"
    and "fst (sweep n pre) = None"
    and "kind each = RPDeviceConnected \<or> kind each = RPMDeviceConnected"
    and "fst (ping n oid each) = Some NumerousPingFailures
         \<or> (fst (ping n oid each) = None \<and> 3 < ping_failures (properties (snd (ping n oid each))))"
    and "disconnect n oid (snd (ping n oid each)) False = (None, d2)"
  shows "ping_registered_devices n l =
           (fst (sweep n post),
            l\<lparr>u_registered_devices := fst (snd (sweep n pre)) @ (oid, d2) # fst (snd (sweep n post))\<rparr>,
            snd (snd (sweep n pre))
            @ (oid, [Debug (''Ping '' @ name_prop (properties each) @ ''|'' @ address (properties each)),
                     Ping,
                     Warning (name_prop (properties (snd (ping n oid each))) @ ''|''
                              @ address (properties (snd (ping n oid each)))
                              @ '' is offline, disconnecting it.''),
                     Disconnect False])
            # snd (snd (sweep n post)))"
  by (simp add: ping_registered_devices_eq assms(1) sweep_append [OF assms(2)] sweep_Cons
      check_NumerousPingFailures [OF assms(3,4)] assms(5) del: sweep.simps)

theorem sweep_continues_after_NumerousPingFailures_witness:
  "fst (sweep ex_net [(0, ex_device OtherDevice ''x'' 0)]) = None
   \<and> ping ex_net 1 (ex_device RPMDeviceConnected ''dev'' 3)
       = (None, ex_device RPMDeviceConnected ''dev'' 4)
   \<and> 3 < ping_failures (properties (ex_device RPMDeviceConnected ''dev'' 4))
   \<and> disconnect ex_net 1 (ex_device RPMDeviceConnected ''dev'' 4) False
       = (None, ex_device OtherDevice ''dev'' 4)
   \<and> fst (ping_registered_devices ex_net ex_lite) = None
   \<and> map fst (snd (snd (ping_registered_devices ex_net ex_lite))) = [0, 1, 2]
   \<and> ping ex_net_numerous 1 (ex_device RPMDeviceConnected ''dev'' 3)
       = (Some NumerousPingFailures, ex_device RPMDeviceConnected ''dev'' 3)
   \<and> fst (ping_registered_devices ex_net_numerous ex_lite) = None
   \<and> map fst (snd (snd (ping_registered_devices ex_net_numerous ex_lite))) = [0, 1, 2]"
proof -
  have 1: "u_registered_devices ex_lite =
             [(0, ex_device OtherDevice ''x'' 0)] @ (1, ex_device RPMDeviceConnected ''dev'' 3)
               # [(2, ex_device OtherDevice ''dev'' 4)]"
    by (simp add: ex_lite_def)
  have k: "kind (ex_device RPMDeviceConnected ''dev'' 3) = RPDeviceConnected
           \<or> kind (ex_device RPMDeviceConnected ''dev'' 3) = RPMDeviceConnected"
    by (simp add: ex_device_def)
  have s0: "sweep m [(0, ex_device OtherDevice ''x'' 0)]
              = (None, [(0, ex_device OtherDevice ''x'' 0)],
                 [(0, [Read (''2:5 device '' @ str_int 5 @ '' objectName'')])])" for m
    by (simp add: check_def ex_device_def)
  have s2: "sweep m [(2, ex_device OtherDevice ''dev'' 4)]
              = (None, [(2, ex_device OtherDevice ''dev'' 4)],
                 [(2, [Read (''2:5 device '' @ str_int 5 @ '' objectName'')])])" for m
    by (simp add: check_def ex_device_def)
  have a2: "fst (sweep ex_net [(0, ex_device OtherDevice ''x'' 0)]) = None"
    by (simp add: s0 del: sweep.simps)
  have a4: "ping ex_net 1 (ex_device RPMDeviceConnected ''dev'' 3)
              = (None, ex_device RPMDeviceConnected ''dev'' 4)"
    by (simp add: ex_net_def ex_device_def)
  have a4': "3 < ping_failures (properties (ex_device RPMDeviceConnected ''dev'' 4))"
    by (simp add: ex_device_def)
  from a4 a4' have a4'': "fst (ping ex_net 1 (ex_device RPMDeviceConnected ''dev'' 3)) = Some NumerousPingFailures
         \<or> (fst (ping ex_net 1 (ex_device RPMDeviceConnected ''dev'' 3)) = None
            \<and> 3 < ping_failures (properties (snd (ping ex_net 1 (ex_device RPMDeviceConnected ''dev'' 3)))))"
    by simp
  have a5: "disconnect ex_net 1 (ex_device RPMDeviceConnected ''dev'' 4) False
              = (None, ex_device OtherDevice ''dev'' 4)"
    by (simp add: ex_net_def ex_device_def)
  from a4 a5 have a5': "disconnect ex_net 1 (snd (ping ex_net 1 (ex_device RPMDeviceConnected ''dev'' 3))) False
              = (None, ex_device OtherDevice ''dev'' 4)"
    by simp
  have b2: "fst (sweep ex_net_numerous [(0, ex_device OtherDevice ''x'' 0)]) = None"
    by (simp add: s0 del: sweep.simps)
  have b4: "ping ex_net_numerous 1 (ex_device RPMDeviceConnected ''dev'' 3)
              = (Some NumerousPingFailures, ex_device RPMDeviceConnected ''dev'' 3)"
    by (simp add: ex_net_numerous_def ex_net_def)
  from b4 have b4': "fst (ping ex_net_numerous 1 (ex_device RPMDeviceConnected ''dev'' 3)) = Some NumerousPingFailures
         \<or> (fst (ping ex_net_numerous 1 (ex_device RPMDeviceConnected ''dev'' 3)) = None
            \<and> 3 < ping_failures (properties (snd (ping ex_net_numerous 1 (ex_device RPMDeviceConnected ''dev'' 3)))))"
    by simp
  have b5: "disconnect ex_net_numerous 1 (snd (ping ex_net_numerous 1 (ex_device RPMDeviceConnected ''dev'' 3))) False
              = (None, ex_device OtherDevice ''dev'' 3)"
    by (simp add: ex_net_numerous_def ex_net_def ex_device_def)
  show ?thesis
    using a2 a4 a4' a5
      sweep_continues_after_NumerousPingFailures [OF 1 a2 k a4'' a5']
      b4 sweep_continues_after_NumerousPingFailures [OF 1 b2 k b4' b5]
    by (simp add: s0 s2 del: sweep.simps)
qed


end
